theory Spec2Isabelle
  imports Main
begin

section \<open>The memento notebook: editor, snapshots and history\<close>

text \<open>
  The notebook \<open>software_design/design_patterns/memento/momento.ipynb\<close> defines two
  versions of a text editor with undo. Python strings are immutable values and are
  modelled as \<open>string\<close>; a Python list used as a stack keeps its order, the most recent
  entry last: \<open>append\<close> adds at the end and \<open>pop()\<close> removes the last entry.
  An attribute lookup that fails raises \<open>AttributeError\<close>, a call with the wrong number
  of arguments raises \<open>TypeError\<close>.
\<close>

datatype error = AttributeError | TypeError

subsection \<open>Before the pattern: the editor keeps its own history\<close>

text \<open>
  \<^verbatim>\<open>
  class Editor:
      def __init__(self):
          self._content = ""
          self._history = []
      def add_text(self, words):
          self._history.append(self._content)
          self._content += words
      def get_content(self):
          return self._content
      def undo(self):
          if self._history:
              self._content = self._history.pop()
          else:
              print("No states to undo.")
  \<close>
  The lines written by \<open>print\<close> are returned next to the new state.
\<close>

record NaiveEditor =
  naive_content :: string
  naive_history :: "string list"

definition NaiveEditor_init :: NaiveEditor where
  "NaiveEditor_init = \<lparr>naive_content = '''', naive_history = []\<rparr>"

definition naive_add_text :: "NaiveEditor \<Rightarrow> string \<Rightarrow> NaiveEditor" where
  "naive_add_text ed words =
     \<lparr>naive_content = naive_content ed @ words,
      naive_history = naive_history ed @ [naive_content ed]\<rparr>"

definition naive_get_content :: "NaiveEditor \<Rightarrow> string" where
  "naive_get_content ed = naive_content ed"

definition naive_undo :: "NaiveEditor \<Rightarrow> NaiveEditor \<times> string list" where
  "naive_undo ed =
     (if naive_history ed \<noteq> []
      then (\<lparr>naive_content = last (naive_history ed),
             naive_history = butlast (naive_history ed)\<rparr>, [])
      else (ed, [''No states to undo.'']))"

subsection \<open>After the pattern: memento, originator and caretaker\<close>

text \<open>
  \<^verbatim>\<open>
  class EditorState:
      def __init__(self, content):
          self._content = content
      def get_content(self):
          return self._content
  \<close>
\<close>

datatype EditorState = EditorState string

fun state_get_content :: "EditorState \<Rightarrow> string" where
  "state_get_content (EditorState c) = c"

text \<open>
  \<^verbatim>\<open>
  class Editor:
      def __init__(self):
          self._content = ""
      def add_text(self, words):
          self._content += words
      def get_content(self):
          return self._content
      def get_state(self):
          return EditorState(self._content)
      def restore_state(self, state):
          self._content = state.get_content()
  \<close>
  The argument of \<open>restore_state\<close> is whatever \<open>History.pop\<close> returned: a snapshot or
  \<open>None\<close>. \<open>None\<close> has no attribute \<open>get_content\<close>, so the call raises before the
  assignment takes place.
\<close>

record Editor =
  content :: string

definition Editor_init :: Editor where
  "Editor_init = \<lparr>content = ''''\<rparr>"

definition add_text :: "Editor \<Rightarrow> string \<Rightarrow> Editor" where
  "add_text ed words = ed\<lparr>content := content ed @ words\<rparr>"

definition get_content :: "Editor \<Rightarrow> string" where
  "get_content ed = content ed"

definition get_state :: "Editor \<Rightarrow> EditorState" where
  "get_state ed = EditorState (content ed)"

fun restore_state :: "Editor \<Rightarrow> EditorState option \<Rightarrow> error + Editor" where
  "restore_state ed None = Inl AttributeError"
| "restore_state ed (Some st) = Inr (ed\<lparr>content := state_get_content st\<rparr>)"

text \<open>
  \<^verbatim>\<open>
  class History:
      def __init__(self):
          self._states = []
      def push(self, state):
          self._states.append(state)
      def pop(self):
          if self._states:
              return self._states.pop()
          return None
  \<close>
  \<open>pop\<close> returns its result together with the history it leaves behind.
\<close>

record History =
  states :: "EditorState list"

definition History_init :: History where
  "History_init = \<lparr>states = []\<rparr>"

text \<open>
  The constructor call \<open>History(args)\<close>: \<open>__init__\<close> has no parameter besides \<open>self\<close>,
  so the call succeeds with no argument only. There is nothing to configure.
\<close>

fun History_new :: "'a list \<Rightarrow> error + History" where
  "History_new [] = Inr History_init"
| "History_new (a # as) = Inl TypeError"

definition push :: "History \<Rightarrow> EditorState \<Rightarrow> History" where
  "push h st = h\<lparr>states := states h @ [st]\<rparr>"

definition pop :: "History \<Rightarrow> EditorState option \<times> History" where
  "pop h =
     (if states h \<noteq> []
      then (Some (last (states h)), h\<lparr>states := butlast (states h)\<rparr>)
      else (None, h))"

text \<open>
  A sequence of calls on one history. \<open>push\<close> returns \<open>None\<close>, as every Python
  method without a \<open>return\<close> does; the results of the calls are collected in order.
\<close>

datatype History_op = Push EditorState | Pop

fun History_step :: "History \<Rightarrow> History_op \<Rightarrow> EditorState option \<times> History" where
  "History_step h (Push st) = (None, push h st)"
| "History_step h Pop = pop h"

fun History_run :: "History \<Rightarrow> History_op list \<Rightarrow> EditorState option list \<times> History" where
  "History_run h [] = ([], h)"
| "History_run h (c # cs) =
     (case History_step h c of (r, h') \<Rightarrow>
        (case History_run h' cs of (rs, h'') \<Rightarrow> (r # rs, h'')))"

subsection \<open>The usage cell of the pattern\<close>

text \<open>
  \<^verbatim>\<open>
  editor = Editor()
  history = History()
  history.push(editor.get_state())
  editor.add_text("Hello, ")
  history.push(editor.get_state())
  editor.add_text("world!")
  history.push(editor.get_state())
  editor.restore_state(history.pop())
  print(editor.get_content())  # Output: Hello, world!
  editor.restore_state(history.pop())
  print(editor.get_content())  # Output: Hello,
  editor.restore_state(history.pop())
  print(editor.get_content())  # Output:
  \<close>
  The cell seeds the history with the snapshot of the empty editor, saves a snapshot
  after every edit, and undoes by restoring what \<open>pop\<close> returns. \<open>usage_edits\<close> is the
  first half for any list of texts, \<open>undo_times\<close> the second half for any number of
  undo lines. Python evaluates the argument \<open>history.pop()\<close> before the call, and a
  raise ends the cell.
\<close>

definition usage_start :: "Editor \<times> History" where
  "usage_start = (Editor_init, push History_init (get_state Editor_init))"

fun edit_and_save :: "Editor \<times> History \<Rightarrow> string \<Rightarrow> Editor \<times> History" where
  "edit_and_save (ed, h) words =
     (let ed' = add_text ed words in (ed', push h (get_state ed')))"

definition usage_edits :: "string list \<Rightarrow> Editor \<times> History" where
  "usage_edits ws = foldl edit_and_save usage_start ws"

fun undo_restore :: "Editor \<times> History \<Rightarrow> error + Editor \<times> History" where
  "undo_restore (ed, h) =
     (case pop h of (r, h') \<Rightarrow>
        (case restore_state ed r of Inl err \<Rightarrow> Inl err | Inr ed' \<Rightarrow> Inr (ed', h')))"

fun undo_times :: "nat \<Rightarrow> Editor \<times> History \<Rightarrow> error + Editor \<times> History" where
  "undo_times 0 st = Inr st"
| "undo_times (Suc n) st =
     (case undo_restore st of Inl err \<Rightarrow> Inl err | Inr st' \<Rightarrow> undo_times n st')"

text \<open>What \<open>print(editor.get_content())\<close> shows after \<open>k\<close> undo lines.\<close>

definition read_after_undos :: "nat \<Rightarrow> string list \<Rightarrow> error + string" where
  "read_after_undos k ws =
     (case undo_times k (usage_edits ws) of
        Inl err \<Rightarrow> Inl err
      | Inr (ed, h) \<Rightarrow> Inr (get_content ed))"

subsection \<open>The two editors driven by the same commands\<close>

text \<open>
  The naive editor saves its content inside \<open>add_text\<close>. With the pattern the caller
  does the same by \<open>history.push(editor.get_state())\<close> right before
  \<open>editor.add_text(words)\<close>, and undoes by \<open>editor.restore_state(history.pop())\<close>.
  The commands are issued one at a time, as the cells of the notebook are. A command
  that raises is reported and changes nothing more: the editor is as it was, the
  history is as \<open>pop\<close> left it, and the next command goes on from there.
\<close>

datatype command = AddText string | Undo

fun naive_step :: "NaiveEditor \<Rightarrow> command \<Rightarrow> NaiveEditor \<times> string list" where
  "naive_step ed (AddText words) = (naive_add_text ed words, [])"
| "naive_step ed Undo = naive_undo ed"

fun naive_run :: "NaiveEditor \<Rightarrow> command list \<Rightarrow> NaiveEditor \<times> string list" where
  "naive_run ed [] = (ed, [])"
| "naive_run ed (c # cs) =
     (case naive_step ed c of (ed', out) \<Rightarrow>
        (case naive_run ed' cs of (ed'', out') \<Rightarrow> (ed'', out @ out')))"

fun memento_step :: "Editor \<times> History \<Rightarrow> command \<Rightarrow> error list \<times> Editor \<times> History" where
  "memento_step (ed, h) (AddText words) = ([], add_text ed words, push h (get_state ed))"
| "memento_step (ed, h) Undo =
     (case pop h of (r, h') \<Rightarrow>
        (case restore_state ed r of
           Inl err \<Rightarrow> ([err], ed, h')
         | Inr ed' \<Rightarrow> ([], ed', h')))"

fun memento_run :: "Editor \<times> History \<Rightarrow> command list \<Rightarrow> error list \<times> Editor \<times> History" where
  "memento_run st [] = ([], st)"
| "memento_run st (c # cs) =
     (case memento_step st c of (errs, st') \<Rightarrow>
        (case memento_run st' cs of (errs', st'') \<Rightarrow> (errs @ errs', st'')))"

subsection \<open>Calling the history by a method name\<close>

text \<open>
  A call \<open>history.name(args)\<close> by its name, with snapshots as arguments. The class
  body of \<open>History\<close> binds \<open>__init__\<close>, \<open>push\<close> and \<open>pop\<close>, and \<open>__init__\<close> gives every
  instance the list \<open>_states\<close>; nothing in the notebook adds another attribute to the
  class or to an instance. \<open>__init__\<close> called again empties the list and returns
  \<open>None\<close>; \<open>_states\<close> is a list, and calling a list raises \<open>TypeError\<close>, as a method
  called with the wrong number of arguments does. What a history inherits from
  Python's \<open>object\<close> has names of the form \<open>__name__\<close> only; for such a name other than
  \<open>__init__\<close> no answer is given here (\<open>None\<close>). Every other name, \<open>redo\<close> for one, is
  bound nowhere: Python looks the name up first, the call raises \<open>AttributeError\<close>
  and the history stays as it was.
\<close>

definition dunder :: "string \<Rightarrow> bool" where
  "dunder name = (take 2 name = ''__'' \<and> take 2 (rev name) = ''__'')"

definition History_call ::
  "History \<Rightarrow> string \<Rightarrow> EditorState list \<Rightarrow> (error + EditorState option \<times> History) option" where
  "History_call h name args =
     (if name = ''__init__'' then
        Some (case args of [] \<Rightarrow> Inr (None, h\<lparr>states := []\<rparr>) | _ \<Rightarrow> Inl TypeError)
      else if dunder name then None
      else if name = ''push'' then
        Some (case args of [st] \<Rightarrow> Inr (None, push h st) | _ \<Rightarrow> Inl TypeError)
      else if name = ''pop'' then
        Some (case args of [] \<Rightarrow> Inr (pop h) | _ \<Rightarrow> Inl TypeError)
      else if name = ''_states'' then Some (Inl TypeError)
      else Some (Inl AttributeError))"

subsection \<open>Editors, snapshots and their contents as objects in a store\<close>

text \<open>
  Nothing in the two classes says that a content is a string: \<open>EditorState(content)\<close>
  keeps whatever it is given, \<open>get_state\<close> hands \<open>self._content\<close> on without a copy,
  and \<open>restore_state\<close> takes over what \<open>state.get_content()\<close> returns. Whether two
  objects share a content matters once a content can change, so here the objects live
  in a store and are named by references (indices; a new object is appended).

  A value is \<open>None\<close>, a string (immutable, so it is the value itself) or a reference to
  an object. The objects are editors and snapshots, each holding the value of its
  \<open>_content\<close>, and lists, the mutable contents: a list holds its items.

  \<^item> \<open>state.get_content()\<close>: both classes bind \<open>get_content\<close>, returning
    \<open>self._content\<close>; \<open>None\<close>, a string and a list have no such attribute.
  \<^item> \<open>self._content += words\<close>: for a string content and a string \<open>words\<close> the result is a
    new string; for a list content \<open>words\<close> is iterated (a string gives its characters, a
    list its items) and the list object itself is extended in place; everything else
    raises \<open>TypeError\<close> and assigns nothing.
  \<^item> An \<open>EditorState\<close> and a list have no \<open>add_text\<close>, \<open>get_state\<close> or \<open>restore_state\<close>.

  A reference outside the store is not a value a Python program can hold; it is
  reported as \<open>NoObject\<close> rather than read out of range.
\<close>

type_synonym ref = nat

datatype pyval = PyNone | PyStr string | PyRef ref

datatype pyobj = EditorObj pyval | EditorStateObj pyval | ListObj "pyval list"

datatype store_error = Raised error | NoObject

type_synonym store = "pyobj list"

definition store_lookup :: "store \<Rightarrow> ref \<Rightarrow> pyobj option" where
  "store_lookup sto r = (if r < length sto then Some (sto ! r) else None)"

text \<open>The constructor calls \<open>Editor()\<close> and \<open>EditorState(content)\<close>, and a list display.\<close>

definition obj_new_Editor :: "store \<Rightarrow> ref \<times> store" where
  "obj_new_Editor sto = (length sto, sto @ [EditorObj (PyStr '''')])"

definition obj_new_EditorState :: "store \<Rightarrow> pyval \<Rightarrow> ref \<times> store" where
  "obj_new_EditorState sto v = (length sto, sto @ [EditorStateObj v])"

definition obj_new_list :: "store \<Rightarrow> pyval list \<Rightarrow> ref \<times> store" where
  "obj_new_list sto items = (length sto, sto @ [ListObj items])"

fun obj_get_content :: "store \<Rightarrow> pyval \<Rightarrow> store_error + pyval" where
  "obj_get_content sto PyNone = Inl (Raised AttributeError)"
| "obj_get_content sto (PyStr s) = Inl (Raised AttributeError)"
| "obj_get_content sto (PyRef r) =
     (case store_lookup sto r of
        None \<Rightarrow> Inl NoObject
      | Some (EditorObj v) \<Rightarrow> Inr v
      | Some (EditorStateObj v) \<Rightarrow> Inr v
      | Some (ListObj xs) \<Rightarrow> Inl (Raised AttributeError))"

text \<open>The items that iterating over a value gives, as extending a list needs them.\<close>

fun obj_iter :: "store \<Rightarrow> pyval \<Rightarrow> store_error + pyval list" where
  "obj_iter sto PyNone = Inl (Raised TypeError)"
| "obj_iter sto (PyStr s) = Inr (map (\<lambda>c. PyStr [c]) s)"
| "obj_iter sto (PyRef r) =
     (case store_lookup sto r of
        None \<Rightarrow> Inl NoObject
      | Some (ListObj xs) \<Rightarrow> Inr xs
      | Some (EditorObj v) \<Rightarrow> Inl (Raised TypeError)
      | Some (EditorStateObj v) \<Rightarrow> Inl (Raised TypeError))"

text \<open>
  \<open>cur += words\<close>: the value to assign and the store after it. Only a list is changed
  in place, and then the value to assign is the same reference.
\<close>

fun obj_iadd :: "store \<Rightarrow> pyval \<Rightarrow> pyval \<Rightarrow> store_error + pyval \<times> store" where
  "obj_iadd sto PyNone words = Inl (Raised TypeError)"
| "obj_iadd sto (PyStr a) (PyStr b) = Inr (PyStr (a @ b), sto)"
| "obj_iadd sto (PyStr a) words = Inl (Raised TypeError)"
| "obj_iadd sto (PyRef r) words =
     (case store_lookup sto r of
        None \<Rightarrow> Inl NoObject
      | Some (ListObj xs) \<Rightarrow>
          (case obj_iter sto words of
             Inl err \<Rightarrow> Inl err
           | Inr ys \<Rightarrow> Inr (PyRef r, sto[r := ListObj (xs @ ys)]))
      | Some (EditorObj v) \<Rightarrow> Inl (Raised TypeError)
      | Some (EditorStateObj v) \<Rightarrow> Inl (Raised TypeError))"

definition obj_add_text :: "store \<Rightarrow> ref \<Rightarrow> pyval \<Rightarrow> store_error + store" where
  "obj_add_text sto self words =
     (case store_lookup sto self of
        None \<Rightarrow> Inl NoObject
      | Some (EditorStateObj v) \<Rightarrow> Inl (Raised AttributeError)
      | Some (ListObj xs) \<Rightarrow> Inl (Raised AttributeError)
      | Some (EditorObj cur) \<Rightarrow>
          (case obj_iadd sto cur words of
             Inl err \<Rightarrow> Inl err
           | Inr (v, sto') \<Rightarrow> Inr (sto'[self := EditorObj v])))"

definition obj_get_state :: "store \<Rightarrow> ref \<Rightarrow> store_error + ref \<times> store" where
  "obj_get_state sto self =
     (case store_lookup sto self of
        None \<Rightarrow> Inl NoObject
      | Some (EditorStateObj v) \<Rightarrow> Inl (Raised AttributeError)
      | Some (ListObj xs) \<Rightarrow> Inl (Raised AttributeError)
      | Some (EditorObj cur) \<Rightarrow> Inr (obj_new_EditorState sto cur))"

definition obj_restore_state :: "store \<Rightarrow> ref \<Rightarrow> pyval \<Rightarrow> store_error + store" where
  "obj_restore_state sto self state =
     (case store_lookup sto self of
        None \<Rightarrow> Inl NoObject
      | Some (EditorStateObj v) \<Rightarrow> Inl (Raised AttributeError)
      | Some (ListObj xs) \<Rightarrow> Inl (Raised AttributeError)
      | Some (EditorObj cur) \<Rightarrow>
          (case obj_get_content sto state of
             Inl err \<Rightarrow> Inl err
           | Inr v \<Rightarrow> Inr (sto[self := EditorObj v])))"

text \<open>
  Any sequence of statements over the two classes: method calls on any editor with any
  arguments, and the creation of editors, snapshots and lists. A statement that raises
  is reported, leaves the store as it was, and the next statement goes on from there.
\<close>

datatype statement =
    Call_add_text ref pyval
  | Call_get_state ref
  | Call_restore_state ref pyval
  | New_Editor
  | New_EditorState pyval
  | New_list "pyval list"

fun obj_step :: "store \<Rightarrow> statement \<Rightarrow> store_error list \<times> store" where
  "obj_step sto (Call_add_text self words) =
     (case obj_add_text sto self words of Inl err \<Rightarrow> ([err], sto) | Inr sto' \<Rightarrow> ([], sto'))"
| "obj_step sto (Call_get_state self) =
     (case obj_get_state sto self of Inl err \<Rightarrow> ([err], sto) | Inr (r, sto') \<Rightarrow> ([], sto'))"
| "obj_step sto (Call_restore_state self state) =
     (case obj_restore_state sto self state of
        Inl err \<Rightarrow> ([err], sto)
      | Inr sto' \<Rightarrow> ([], sto'))"
| "obj_step sto New_Editor = ([], snd (obj_new_Editor sto))"
| "obj_step sto (New_EditorState v) = ([], snd (obj_new_EditorState sto v))"
| "obj_step sto (New_list items) = ([], snd (obj_new_list sto items))"

fun obj_steps :: "store \<Rightarrow> statement list \<Rightarrow> store_error list \<times> store" where
  "obj_steps sto [] = ([], sto)"
| "obj_steps sto (c # cs) =
     (case obj_step sto c of (errs, sto') \<Rightarrow>
        (case obj_steps sto' cs of (errs', sto'') \<Rightarrow> (errs @ errs', sto'')))"

text \<open>
  What a value stands for in a store: \<open>None\<close> and a string stand for themselves, a
  reference for the object it names as that object now is. \<open>snapshot_view\<close> is what
  \<open>state.get_content()\<close> stands for, that is, what printing it would show.
\<close>

datatype view = View_None | View_str string | View_obj pyobj | View_nothing

fun obj_view :: "store \<Rightarrow> pyval \<Rightarrow> view" where
  "obj_view sto PyNone = View_None"
| "obj_view sto (PyStr s) = View_str s"
| "obj_view sto (PyRef r) =
     (case store_lookup sto r of None \<Rightarrow> View_nothing | Some ob \<Rightarrow> View_obj ob)"

definition snapshot_view :: "store \<Rightarrow> ref \<Rightarrow> store_error + view" where
  "snapshot_view sto s =
     (case obj_get_content sto (PyRef s) of
        Inl err \<Rightarrow> Inl err
      | Inr v \<Rightarrow> Inr (obj_view sto v))"

fun immutable :: "pyval \<Rightarrow> bool" where
  "immutable PyNone = True"
| "immutable (PyStr s) = True"
| "immutable (PyRef r) = False"

text \<open>
  A store of text only: every editor and every snapshot holds a string. A statement is
  a text statement unless it builds a snapshot by hand from something else.
\<close>

fun is_str :: "pyval \<Rightarrow> bool" where
  "is_str (PyStr s) = True"
| "is_str v = False"

fun holds_text :: "pyobj \<Rightarrow> bool" where
  "holds_text (EditorObj v) = is_str v"
| "holds_text (EditorStateObj v) = is_str v"
| "holds_text (ListObj xs) = True"

definition text_only :: "store \<Rightarrow> bool" where
  "text_only sto = list_all holds_text sto"

fun text_statement :: "statement \<Rightarrow> bool" where
  "text_statement (New_EditorState v) = is_str v"
| "text_statement c = True"

section \<open>The history as a stack\<close>

lemma pop_push: "pop (push h st) = (Some st, h)"
  by (simp add: pop_def push_def)

lemma pop_empty: "states h = [] \<Longrightarrow> pop h = (None, h)"
  by (simp add: pop_def)

lemma pop_nonempty:
  "states h \<noteq> [] \<Longrightarrow>
   pop h = (Some (last (states h)), h\<lparr>states := butlast (states h)\<rparr>)"
  by (simp add: pop_def)

lemma snapshot_of_content: "EditorState (state_get_content st) = st"
  by (cases st) simp

lemma History_run_append:
  "History_run h (cs @ ds) =
     (case History_run h cs of (rs, h') \<Rightarrow>
        (case History_run h' ds of (rs', h'') \<Rightarrow> (rs @ rs', h'')))"
  by (induction cs arbitrary: h) (auto split: prod.splits)

lemma History_run_pushes:
  "History_run h (map Push ss) =
     (replicate (length ss) None, h\<lparr>states := states h @ ss\<rparr>)"
proof (induction ss arbitrary: h)
  case Nil
  show ?case by simp
next
  case (Cons s ss)
  show ?case by (simp add: Cons.IH push_def)
qed

text \<open>As many \<open>pop\<close> calls as there are entries return them all, the newest first.\<close>

lemma History_run_pops:
  "History_run h (replicate (length (states h)) Pop) =
     (map Some (rev (states h)), h\<lparr>states := []\<rparr>)"
proof (induction "states h" arbitrary: h rule: rev_induct)
  case Nil
  then show ?case by simp
next
  case (snoc x xs)
  have st: "states h = xs @ [x]" using snoc.hyps(2) by simp
  let ?h' = "h\<lparr>states := xs\<rparr>"
  have p: "pop h = (Some x, ?h')" by (simp add: pop_def st)
  have ih: "History_run ?h' (replicate (length (states ?h')) Pop) =
      (map Some (rev (states ?h')), ?h'\<lparr>states := []\<rparr>)"
    by (rule snoc.hyps(1)) simp
  show ?case using ih by (simp add: st p)
qed

lemma History_run_pops_then_one:
  "History_run h (replicate (Suc (length (states h))) Pop) =
     (map Some (rev (states h)) @ [None], h\<lparr>states := []\<rparr>)"
proof -
  have "replicate (Suc (length (states h))) Pop = replicate (length (states h)) Pop @ [Pop]"
    by (simp add: replicate_append_same)
  then show ?thesis
    by (simp only: History_run_append History_run_pops) (simp add: pop_def)
qed

text \<open>
  Claim C8. The history is a last-in-first-out container: \<open>push(s)\<close> followed by
  \<open>pop()\<close> returns exactly \<open>s\<close>, and the stored sequence afterwards is the sequence
  before the push.
\<close>

theorem C8_push_then_pop:
  "fst (pop (push h st)) = Some st \<and> states (snd (pop (push h st))) = states h
     \<and> snd (pop (push h st)) = h"
  by (simp add: pop_push)

text \<open>
  Claim C2. \<open>pop\<close> on a history with no entries returns \<open>None\<close> and leaves the history
  as it was, so every later sequence of calls gives the same results as it would have
  given without the failed \<open>pop\<close>. The naive editor's \<open>undo\<close> with no saved state
  prints its message and leaves the editor, and so its content, as it was.
\<close>

theorem C2_undo_on_empty:
  "(states h = [] \<longrightarrow>
      pop h = (None, h) \<and> History_run (snd (pop h)) ops = History_run h ops) \<and>
   (naive_history ed = [] \<longrightarrow>
      naive_undo ed = (ed, [''No states to undo.'']) \<and>
      naive_get_content (fst (naive_undo ed)) = naive_get_content ed)"
  by (simp add: pop_empty naive_undo_def)

theorem C2_undo_on_empty_witness:
  "states History_init = [] \<and> pop History_init = (None, History_init) \<and>
   History_run (snd (pop History_init)) [Push (EditorState ''a''), Pop] =
     History_run History_init [Push (EditorState ''a''), Pop] \<and>
   naive_history NaiveEditor_init = [] \<and>
   naive_undo NaiveEditor_init = (NaiveEditor_init, [''No states to undo.'']) \<and>
   naive_get_content (fst (naive_undo NaiveEditor_init)) = naive_get_content NaiveEditor_init"
  using C2_undo_on_empty [of History_init "[Push (EditorState ''a''), Pop]" NaiveEditor_init]
  by (simp add: History_init_def NaiveEditor_init_def)

text \<open>
  Claim C9. \<open>pop\<close> on an empty history returns \<open>None\<close>, which is no snapshot, and
  \<open>restore_state\<close> of it raises \<open>AttributeError\<close>: the undo line
  \<open>editor.restore_state(history.pop())\<close> raises exactly when the history is empty, and
  on a history with an entry it succeeds and sets the content of the newest snapshot.
\<close>

theorem C9_restore_needs_snapshot:
  "(states h = [] \<longrightarrow>
      fst (pop h) = None \<and> (\<forall>st. fst (pop h) \<noteq> Some st) \<and>
      restore_state ed (fst (pop h)) = Inl AttributeError \<and>
      undo_restore (ed, h) = Inl AttributeError) \<and>
   (states h \<noteq> [] \<longrightarrow>
      (\<exists>ed'. restore_state ed (fst (pop h)) = Inr ed' \<and>
             get_content ed' = state_get_content (last (states h))))"
  by (simp add: pop_def get_content_def)

theorem C9_restore_needs_snapshot_witness:
  "states History_init = [] \<and> fst (pop History_init) = None \<and>
   restore_state Editor_init (fst (pop History_init)) = Inl AttributeError \<and>
   undo_restore (Editor_init, History_init) = Inl AttributeError \<and>
   states (push History_init (EditorState ''a'')) \<noteq> [] \<and>
   (\<exists>ed'. restore_state Editor_init (fst (pop (push History_init (EditorState ''a'')))) = Inr ed' \<and>
          get_content ed' = ''a'')"
  using C9_restore_needs_snapshot [of History_init Editor_init]
    C9_restore_needs_snapshot [of "push History_init (EditorState ''a'')" Editor_init]
  by (simp add: History_init_def push_def)

text \<open>
  Claim C6. Restoring the snapshot just taken leaves the editor as it was:
  \<open>restore_state(get_state())\<close> raises nothing and \<open>get_content()\<close> is the same before
  and after.
\<close>

theorem C6_restore_of_get_state:
  "restore_state ed (Some (get_state ed)) = Inr ed \<and>
   (\<exists>ed'. restore_state ed (Some (get_state ed)) = Inr ed' \<and> get_content ed' = get_content ed)"
  by (simp add: get_state_def)

section \<open>No capacity and no redo\<close>

text \<open>
  \<open>History()\<close> takes no argument, so there is no history with a capacity, and \<open>push\<close>
  never discards: after any \<open>n\<close> pushes on a new history exactly \<open>n\<close> calls of \<open>pop\<close>
  succeed, returning the snapshots newest first and the oldest one last, and the call
  after them returns \<open>None\<close>.
\<close>

lemma History_new_takes_no_argument:
  "History_new (a # as) = Inl TypeError \<and> History_new [] = Inr History_init"
  by simp

lemma History_never_evicts:
  "History_run History_init (map Push ss @ replicate (Suc (length ss)) Pop) =
     (replicate (length ss) None @ map Some (rev ss) @ [None], History_init)"
proof -
  let ?h = "History_init\<lparr>states := states History_init @ ss\<rparr>"
  have len: "length (states ?h) = length ss" by (simp add: History_init_def)
  have "History_run ?h (replicate (Suc (length ss)) Pop) =
          (map Some (rev (states ?h)) @ [None], ?h\<lparr>states := []\<rparr>)"
    using History_run_pops_then_one [of ?h] by (simp only: len)
  then show ?thesis
    by (simp add: History_run_append History_run_pushes History_init_def)
qed

text \<open>The name \<open>redo\<close> is bound nowhere; the names that are bound answer as the class says.\<close>

lemma redo_is_not_bound: "History_call h ''redo'' args = Some (Inl AttributeError)"
  by (simp add: History_call_def dunder_def)

lemma History_call_examples:
  "History_call \<lparr>states = [EditorState ''a'']\<rparr> ''__init__'' [] =
     Some (Inr (None, \<lparr>states = []\<rparr>)) \<and>
   History_call \<lparr>states = [EditorState ''a'']\<rparr> ''_states'' [] = Some (Inl TypeError) \<and>
   History_call \<lparr>states = [EditorState ''a'']\<rparr> ''__repr__'' [] = None \<and>
   History_call \<lparr>states = [EditorState ''a'']\<rparr> ''pop'' [] =
     Some (Inr (Some (EditorState ''a''), \<lparr>states = []\<rparr>)) \<and>
   History_call \<lparr>states = []\<rparr> ''push'' [EditorState ''a''] =
     Some (Inr (None, \<lparr>states = [EditorState ''a'']\<rparr>)) \<and>
   History_call \<lparr>states = []\<rparr> ''push'' [] = Some (Inl TypeError)"
  by (simp add: History_call_def dunder_def pop_def push_def)

lemma pop_leaves_butlast: "snd (pop h) = h\<lparr>states := butlast (states h)\<rparr>"
  by (simp add: pop_def)

lemma History_run_pop_push:
  "History_run h (Pop # Push t # ps) =
     (fst (pop h) # None # fst (History_run (push (snd (pop h)) t) ps),
      snd (History_run (push (snd (pop h)) t) ps))"
  by (simp split: prod.splits)

text \<open>
  Claim C3, as the code has it. The history keeps one sequence and binds no \<open>redo\<close>: a
  call of \<open>redo\<close> raises \<open>AttributeError\<close>, after a \<open>pop\<close> and a \<open>push\<close> as on any other
  history. For every history, after a \<open>pop\<close> followed by \<open>push(t)\<close> the stored sequence
  is the one before the \<open>pop\<close> without its last entry, followed by \<open>t\<close>; further calls
  of \<open>pop\<close> return \<open>t\<close>, then the older entries newest first, then \<open>None\<close>.
\<close>

theorem C3_pop_then_push:
  "History_call h ''redo'' args = Some (Inl AttributeError) \<and>
   History_call (push (snd (pop h)) t) ''redo'' args = Some (Inl AttributeError) \<and>
   states (push (snd (pop h)) t) = butlast (states h) @ [t] \<and>
   History_run h (Pop # Push t # replicate (length (butlast (states h)) + 2) Pop) =
     (fst (pop h) # None # Some t # map Some (rev (butlast (states h))) @ [None],
      h\<lparr>states := []\<rparr>)"
proof -
  let ?h = "push (snd (pop h)) t"
  have st: "states ?h = butlast (states h) @ [t]"
    by (simp add: pop_leaves_butlast push_def)
  have len: "Suc (length (states ?h)) = length (butlast (states h)) + 2"
    by (simp add: st)
  have emp: "?h\<lparr>states := []\<rparr> = h\<lparr>states := []\<rparr>"
    by (simp add: pop_leaves_butlast push_def)
  have pops: "History_run ?h (replicate (length (butlast (states h)) + 2) Pop) =
      (map Some (rev (states ?h)) @ [None], ?h\<lparr>states := []\<rparr>)"
    using History_run_pops_then_one [of ?h] by (simp only: len)
  have run: "History_run h (Pop # Push t # replicate (length (butlast (states h)) + 2) Pop) =
     (fst (pop h) # None # Some t # map Some (rev (butlast (states h))) @ [None],
      h\<lparr>states := []\<rparr>)"
    unfolding History_run_pop_push pops by (simp add: st emp)
  show ?thesis using st run by (simp add: redo_is_not_bound)
qed

text \<open>
  Against claim C3 as stated: after \<open>pop\<close> and \<open>push\<close> the call \<open>history.redo()\<close> raises
  \<open>AttributeError\<close>; it does not come back with the empty result that \<open>pop\<close> gives on
  an empty history. It raises the same without the \<open>push\<close>, so the \<open>push\<close> is not what
  makes it fail.
\<close>

theorem C3_counterexample:
  "History_call
     (push (snd (pop \<lparr>states = [EditorState ''a'', EditorState ''b'']\<rparr>)) (EditorState ''c''))
     ''redo'' [] = Some (Inl AttributeError) \<and>
   History_call
     (push (snd (pop \<lparr>states = [EditorState ''a'', EditorState ''b'']\<rparr>)) (EditorState ''c''))
     ''redo'' [] \<noteq> Some (Inr (None, \<lparr>states = [EditorState ''a'', EditorState ''c'']\<rparr>)) \<and>
   History_call (snd (pop \<lparr>states = [EditorState ''a'', EditorState ''b'']\<rparr>)) ''redo'' [] =
     Some (Inl AttributeError)"
  by (simp add: History_call_def dunder_def)

text \<open>
  Nor could a \<open>redo\<close> be added that reads the history alone. The history left by a
  \<open>pop\<close> and the history left by a \<open>pop\<close> and a \<open>push\<close> can be the same, so no function
  of the history returns the undone snapshot in the first case and the empty result
  in the second.
\<close>

lemma redo_not_definable:
  "\<not> (\<exists>redo :: History \<Rightarrow> EditorState option \<times> History.
        (\<forall>h. states h \<noteq> [] \<longrightarrow> fst (redo (snd (pop h))) = fst (pop h)) \<and>
        (\<forall>h t. states h \<noteq> [] \<longrightarrow> fst (redo (push (snd (pop h)) t)) = None))"
proof
  assume "\<exists>redo :: History \<Rightarrow> EditorState option \<times> History.
        (\<forall>h. states h \<noteq> [] \<longrightarrow> fst (redo (snd (pop h))) = fst (pop h)) \<and>
        (\<forall>h t. states h \<noteq> [] \<longrightarrow> fst (redo (push (snd (pop h)) t)) = None)"
  then obtain redo :: "History \<Rightarrow> EditorState option \<times> History"
    where again: "\<forall>h. states h \<noteq> [] \<longrightarrow> fst (redo (snd (pop h))) = fst (pop h)"
      and gone: "\<forall>h t. states h \<noteq> [] \<longrightarrow> fst (redo (push (snd (pop h)) t)) = None"
    by blast
  let ?h1 = "\<lparr>states = [EditorState ''a'', EditorState ''b'', EditorState ''c'']\<rparr>"
  let ?h2 = "\<lparr>states = [EditorState ''a'', EditorState ''x'']\<rparr>"
  let ?mid = "\<lparr>states = [EditorState ''a'', EditorState ''b'']\<rparr>"
  have p1: "pop ?h1 = (Some (EditorState ''c''), ?mid)" by (simp add: pop_def)
  have p2: "push (snd (pop ?h2)) (EditorState ''b'') = ?mid" by (simp add: pop_def push_def)
  have "fst (redo (snd (pop ?h1))) = fst (pop ?h1)" using again by simp
  then have some: "fst (redo ?mid) = Some (EditorState ''c'')" by (simp add: p1)
  have "fst (redo (push (snd (pop ?h2)) (EditorState ''b''))) = None" using gone by simp
  then have "fst (redo ?mid) = None" by (simp only: p2)
  with some show False by simp
qed

text \<open>
  Claim C4, as the code has it. What undoes a \<open>pop\<close> is a \<open>push\<close> of the snapshot it
  returned: on a history with an entry, \<open>pop\<close> followed by \<open>push\<close> of its result leaves
  the history exactly as it was before the \<open>pop\<close>, and restoring the editor from that
  snapshot puts it in the state the snapshot was taken in.
\<close>

theorem C4_push_inverts_pop:
  "states h \<noteq> [] \<Longrightarrow>
   \<exists>st h'. pop h = (Some st, h') \<and> push h' st = h \<and>
     History_run h [Pop, Push st] = ([Some st, None], h) \<and>
     (\<exists>ed'. restore_state ed (Some st) = Inr ed' \<and> get_state ed' = st)"
proof -
  assume ne: "states h \<noteq> []"
  show ?thesis using ne
    by (simp add: pop_nonempty push_def get_state_def snapshot_of_content)
qed

theorem C4_push_inverts_pop_witness:
  "states \<lparr>states = [EditorState ''a'', EditorState ''b'']\<rparr> \<noteq> [] \<and>
   (\<exists>st h'. pop \<lparr>states = [EditorState ''a'', EditorState ''b'']\<rparr> = (Some st, h') \<and>
      st = EditorState ''b'' \<and>
      push h' st = \<lparr>states = [EditorState ''a'', EditorState ''b'']\<rparr> \<and>
      (\<exists>ed'. restore_state Editor_init (Some st) = Inr ed' \<and> get_state ed' = st))"
  using C4_push_inverts_pop [of "\<lparr>states = [EditorState ''a'', EditorState ''b'']\<rparr>" Editor_init]
  by (auto simp: pop_def)

text \<open>
  Against claim C4 as stated: \<open>pop\<close> forgets the entry it returns. Two different
  histories are the same after one \<open>pop\<close>, so no operation that is given the history
  alone, whatever it is called, brings back the history from before the \<open>pop\<close>.
\<close>

theorem C4_counterexample:
  "snd (pop \<lparr>states = [EditorState ''a'', EditorState ''b'']\<rparr>) = \<lparr>states = [EditorState ''a'']\<rparr> \<and>
   snd (pop \<lparr>states = [EditorState ''a'', EditorState ''c'']\<rparr>) = \<lparr>states = [EditorState ''a'']\<rparr> \<and>
   \<not> (\<exists>redo :: History \<Rightarrow> EditorState option \<times> History.
        \<forall>h. states h \<noteq> [] \<longrightarrow> snd (redo (snd (pop h))) = h)"
proof -
  let ?hb = "\<lparr>states = [EditorState ''a'', EditorState ''b'']\<rparr>"
  let ?hc = "\<lparr>states = [EditorState ''a'', EditorState ''c'']\<rparr>"
  have b: "snd (pop ?hb) = \<lparr>states = [EditorState ''a'']\<rparr>" by (simp add: pop_def)
  have c: "snd (pop ?hc) = \<lparr>states = [EditorState ''a'']\<rparr>" by (simp add: pop_def)
  have "\<not> (\<exists>redo :: History \<Rightarrow> EditorState option \<times> History.
        \<forall>h. states h \<noteq> [] \<longrightarrow> snd (redo (snd (pop h))) = h)"
  proof
    assume "\<exists>redo :: History \<Rightarrow> EditorState option \<times> History.
        \<forall>h. states h \<noteq> [] \<longrightarrow> snd (redo (snd (pop h))) = h"
    then obtain redo :: "History \<Rightarrow> EditorState option \<times> History"
      where r: "\<forall>h. states h \<noteq> [] \<longrightarrow> snd (redo (snd (pop h))) = h" by blast
    have "snd (redo (snd (pop ?hb))) = ?hb" using r by simp
    moreover have "snd (redo (snd (pop ?hc))) = ?hc" using r by simp
    ultimately have "?hb = ?hc" using b c by simp
    then show False by simp
  qed
  with b c show ?thesis by simp
qed

section \<open>The usage cell: undo in reverse order\<close>

lemma usage_edits_snoc:
  "usage_edits (ws @ [w]) = edit_and_save (usage_edits ws) w"
  by (simp add: usage_edits_def)

text \<open>
  After the edits \<open>ws\<close> the editor holds their concatenation and the history holds one
  snapshot for every prefix of \<open>ws\<close>, the empty prefix first.
\<close>

lemma usage_edits_shape:
  "usage_edits ws =
     (\<lparr>content = concat ws\<rparr>,
      \<lparr>states = map (\<lambda>i. EditorState (concat (take i ws))) [0..<Suc (length ws)]\<rparr>)"
proof (induction ws rule: rev_induct)
  case Nil
  show ?case
    by (simp add: usage_edits_def usage_start_def Editor_init_def History_init_def
        push_def get_state_def)
next
  case (snoc w ws)
  show ?case
    unfolding usage_edits_snoc snoc.IH
    by (simp add: add_text_def push_def get_state_def)
qed

lemma undo_times_enough:
  "k < length (states h) \<Longrightarrow>
   undo_times (Suc k) (ed, h) =
     Inr (ed\<lparr>content := state_get_content (states h ! (length (states h) - Suc k))\<rparr>,
          h\<lparr>states := take (length (states h) - Suc k) (states h)\<rparr>)"
proof (induction k arbitrary: ed h)
  case 0
  then have ne: "states h \<noteq> []" by auto
  then show ?case
    by (simp add: pop_def last_conv_nth butlast_conv_take)
next
  case (Suc k)
  then have ne: "states h \<noteq> []" by auto
  let ?h' = "h\<lparr>states := butlast (states h)\<rparr>"
  have len: "k < length (states ?h')" using Suc.prems by simp
  have step: "undo_restore (ed, h) = Inr (ed\<lparr>content := state_get_content (last (states h))\<rparr>, ?h')"
    using ne by (simp add: pop_def)
  show ?case
    using Suc.IH [OF len, of "ed\<lparr>content := state_get_content (last (states h))\<rparr>"] step Suc.prems
    by (simp add: nth_butlast butlast_conv_take min_def)
qed

text \<open>More undo lines than there are snapshots raise \<open>AttributeError\<close>.\<close>

lemma undo_times_too_many:
  "length (states h) \<le> k \<Longrightarrow> undo_times (Suc k) (ed, h) = Inl AttributeError"
proof (induction k arbitrary: ed h)
  case 0
  then show ?case by (simp add: pop_def)
next
  case (Suc k)
  show ?case
  proof (cases "states h = []")
    case True
    then show ?thesis by (simp add: pop_def)
  next
    case False
    let ?h' = "h\<lparr>states := butlast (states h)\<rparr>"
    have len: "length (states ?h') \<le> k" using Suc.prems False by simp
    have step: "undo_restore (ed, h) = Inr (ed\<lparr>content := state_get_content (last (states h))\<rparr>, ?h')"
      using False by (simp add: pop_def)
    show ?thesis
      using Suc.IH [OF len, of "ed\<lparr>content := state_get_content (last (states h))\<rparr>"] step
      by simp
  qed
qed

text \<open>
  Claim C1, as the code has it. The cell saves a snapshot after every edit, on top of
  the snapshot of the empty editor, so the newest snapshot is the present state. After
  \<open>N\<close> edits, undo line number \<open>k + 1\<close> (for \<open>k\<close> from \<open>0\<close> to \<open>N\<close>) raises nothing and
  leaves the editor in the state it had after edit number \<open>N - k\<close>: the first undo
  line shows the state after the last edit, line \<open>N\<close> the state after the first edit,
  and line \<open>N + 1\<close> the initial empty state.
\<close>

theorem C1_undo_in_reverse_order:
  "k \<le> length ws \<Longrightarrow>
   read_after_undos (Suc k) ws = Inr (get_content (fst (usage_edits (take (length ws - k) ws)))) \<and>
   read_after_undos (Suc k) ws = Inr (concat (take (length ws - k) ws))"
proof -
  assume k: "k \<le> length ws"
  let ?xs = "map (\<lambda>i. EditorState (concat (take i ws))) [0..<Suc (length ws)]"
  have len: "k < length (states \<lparr>states = ?xs\<rparr>)" using k by simp
  have idx: "[0..<Suc (length ws)] ! (length ws - k) = length ws - k"
    using nth_upt [of 0 "length ws - k" "Suc (length ws)"] by simp
  have nth: "?xs ! (length ws - k) = EditorState (concat (take (length ws - k) ws))"
    using idx by (simp del: upt_Suc)
  have "read_after_undos (Suc k) ws = Inr (concat (take (length ws - k) ws))"
    unfolding read_after_undos_def usage_edits_shape [of ws]
    using undo_times_enough [OF len, of "\<lparr>content = concat ws\<rparr>"] nth k
    by (simp add: get_content_def del: undo_times.simps upt_Suc)
  then show ?thesis
    by (simp add: usage_edits_shape get_content_def del: upt_Suc)
qed

theorem C1_undo_in_reverse_order_witness:
  "(1::nat) \<le> length [''Hello, '', ''world!''] \<and>
   read_after_undos (Suc 0) [''Hello, '', ''world!''] = Inr ''Hello, world!'' \<and>
   read_after_undos (Suc 1) [''Hello, '', ''world!''] = Inr ''Hello, '' \<and>
   read_after_undos (Suc 2) [''Hello, '', ''world!''] = Inr ''''"
  using C1_undo_in_reverse_order [of 0 "[''Hello, '', ''world!'']", THEN conjunct2]
    C1_undo_in_reverse_order [of 1 "[''Hello, '', ''world!'']", THEN conjunct2]
    C1_undo_in_reverse_order [of 2 "[''Hello, '', ''world!'']", THEN conjunct2]
  by (simp add: numeral_2_eq_2)

text \<open>
  Against claim C1 as stated, in the cell's own scenario: after the edits \<open>Hello, \<close>
  and \<open>world!\<close> the first undo line shows \<open>Hello, world!\<close>, not \<open>Hello, \<close>, and the
  second shows \<open>Hello, \<close>, not the empty text.
\<close>

theorem C1_counterexample:
  "read_after_undos 1 [''Hello, '', ''world!''] = Inr ''Hello, world!'' \<and>
   read_after_undos 1 [''Hello, '', ''world!''] \<noteq> Inr ''Hello, '' \<and>
   read_after_undos 2 [''Hello, '', ''world!''] = Inr ''Hello, '' \<and>
   read_after_undos 2 [''Hello, '', ''world!''] \<noteq> Inr ''''"
  by (simp add: read_after_undos_def usage_edits_def usage_start_def Editor_init_def
      History_init_def add_text_def get_state_def push_def pop_def get_content_def
      numeral_2_eq_2)

section \<open>The two editors compared\<close>

text \<open>
  The simulation: while the editor's content is the naive content and the history holds
  the naive history, entry by entry, every command keeps it so. An \<open>undo\<close> with nothing
  saved raises \<open>AttributeError\<close> with the pattern exactly where the naive editor prints
  its message, and both leave content and history as they were.
\<close>

lemma memento_step_simulates:
  assumes c: "content ed = naive_content ne"
    and s: "states h = map EditorState (naive_history ne)"
  shows "\<exists>errs ed' h' ne' out.
     memento_step (ed, h) c = (errs, ed', h') \<and> naive_step ne c = (ne', out) \<and>
     content ed' = naive_content ne' \<and>
     states h' = map EditorState (naive_history ne') \<and>
     map (\<lambda>e. ''No states to undo.'') errs = out \<and> set errs \<subseteq> {AttributeError}"
proof (cases c)
  case (AddText words)
  show ?thesis
    using c s
    by (simp add: AddText add_text_def push_def get_state_def naive_add_text_def)
next
  case Undo
  show ?thesis
  proof (cases "naive_history ne = []")
    case True
    then have "states h = []" using s by simp
    then show ?thesis using True c s
      by (simp add: Undo pop_empty naive_undo_def)
  next
    case False
    then have hne: "states h \<noteq> []" using s by simp
    show ?thesis using False c s hne
      by (simp add: Undo pop_nonempty naive_undo_def last_map map_butlast)
  qed
qed

lemma memento_simulates_naive:
  "content ed = naive_content ne \<Longrightarrow>
   states h = map EditorState (naive_history ne) \<Longrightarrow>
   \<exists>errs ed' h' ne' out.
     memento_run (ed, h) cs = (errs, ed', h') \<and> naive_run ne cs = (ne', out) \<and>
     content ed' = naive_content ne' \<and>
     states h' = map EditorState (naive_history ne') \<and>
     map (\<lambda>e. ''No states to undo.'') errs = out \<and> set errs \<subseteq> {AttributeError}"
proof (induction cs arbitrary: ed h ne)
  case Nil
  then show ?case by simp
next
  case (Cons c cs)
  from memento_step_simulates [OF Cons.prems, of c]
  obtain errs ed1 h1 ne1 out where
    m: "memento_step (ed, h) c = (errs, ed1, h1)" and n: "naive_step ne c = (ne1, out)" and
    c1: "content ed1 = naive_content ne1" and
    s1: "states h1 = map EditorState (naive_history ne1)" and
    o1: "map (\<lambda>e. ''No states to undo.'') errs = out" and e1: "set errs \<subseteq> {AttributeError}"
    by blast
  from Cons.IH [OF c1 s1]
  obtain errs' ed2 h2 ne2 out' where
    m2: "memento_run (ed1, h1) cs = (errs', ed2, h2)" and n2: "naive_run ne1 cs = (ne2, out')" and
    c2: "content ed2 = naive_content ne2" and
    s2: "states h2 = map EditorState (naive_history ne2)" and
    o2: "map (\<lambda>e. ''No states to undo.'') errs' = out'" and e2: "set errs' \<subseteq> {AttributeError}"
    by blast
  show ?case using m n m2 n2 c2 s2 o1 o2 e1 e2 by simp
qed

text \<open>
  Claim C10. For every sequence of \<open>add_text\<close> and \<open>undo\<close> commands, \<open>get_content()\<close>
  of the editor driven with the pattern (a \<open>push\<close> of \<open>get_state()\<close> right before each
  \<open>add_text\<close>, \<open>restore_state(pop())\<close> for \<open>undo\<close>) agrees with \<open>get_content()\<close> of the
  naive editor after every prefix of the sequence.
\<close>

theorem C10_editors_agree:
  "get_content (fst (snd (memento_run (Editor_init, History_init) (take n cs)))) =
   naive_get_content (fst (naive_run NaiveEditor_init (take n cs)))"
proof -
  have c: "content Editor_init = naive_content NaiveEditor_init"
    by (simp add: Editor_init_def NaiveEditor_init_def)
  have s: "states History_init = map EditorState (naive_history NaiveEditor_init)"
    by (simp add: History_init_def NaiveEditor_init_def)
  from memento_simulates_naive [OF c s, of "take n cs"] show ?thesis
    by (auto simp: get_content_def naive_get_content_def)
qed

text \<open>
  What differs is how an \<open>undo\<close> with nothing saved is reported: one \<open>AttributeError\<close>
  with the pattern for each line the naive editor prints.
\<close>

lemma memento_raises_where_naive_prints:
  "map (\<lambda>e. ''No states to undo.'') (fst (memento_run (Editor_init, History_init) cs)) =
     snd (naive_run NaiveEditor_init cs) \<and>
   set (fst (memento_run (Editor_init, History_init) cs)) \<subseteq> {AttributeError}"
proof -
  have c: "content Editor_init = naive_content NaiveEditor_init"
    by (simp add: Editor_init_def NaiveEditor_init_def)
  have s: "states History_init = map EditorState (naive_history NaiveEditor_init)"
    by (simp add: History_init_def NaiveEditor_init_def)
  from memento_simulates_naive [OF c s, of cs] show ?thesis
    by auto
qed

lemma memento_run_example:
  "memento_run (Editor_init, History_init) [Undo, AddText ''a'', Undo, Undo, AddText ''b''] =
     ([AttributeError, AttributeError], \<lparr>content = ''b''\<rparr>, \<lparr>states = [EditorState '''']\<rparr>) \<and>
   naive_run NaiveEditor_init [Undo, AddText ''a'', Undo, Undo, AddText ''b''] =
     (\<lparr>naive_content = ''b'', naive_history = ['''']\<rparr>,
      [''No states to undo.'', ''No states to undo.''])"
  by (simp add: Editor_init_def History_init_def NaiveEditor_init_def pop_def push_def
      add_text_def get_state_def naive_add_text_def naive_undo_def)

section \<open>Snapshots in the store\<close>

text \<open>
  No statement writes to a snapshot: the entry of an \<open>EditorState\<close> object, and so the
  value \<open>get_content\<close> returns for it, is the same after any statements.
\<close>

lemma obj_step_keeps_snapshot:
  "obj_step sto c = (errs, sto') \<Longrightarrow> s < length sto \<Longrightarrow> sto ! s = EditorStateObj v \<Longrightarrow>
   s < length sto' \<and> sto' ! s = EditorStateObj v"
proof (cases c)
  case (Call_add_text self words)
  assume a: "obj_step sto c = (errs, sto')" "s < length sto" "sto ! s = EditorStateObj v"
  show ?thesis
  proof (cases "obj_add_text sto self words")
    case (Inl err)
    then show ?thesis using a Call_add_text by simp
  next
    case (Inr sto1)
    then have sto': "sto' = sto1" using a Call_add_text by simp
    from Inr obtain cur where cur: "self < length sto" "sto ! self = EditorObj cur"
      by (auto simp: obj_add_text_def store_lookup_def split: if_splits pyobj.splits)
    from Inr cur obtain w sto2 where
      ia: "obj_iadd sto cur words = Inr (w, sto2)" and s1: "sto1 = sto2[self := EditorObj w]"
      by (auto simp: obj_add_text_def store_lookup_def split: sum.splits)
    have "s < length sto2 \<and> sto2 ! s = EditorStateObj v"
      using ia a(2,3)
      by (cases cur; cases words)
        (auto simp: store_lookup_def nth_list_update split: if_splits pyobj.splits sum.splits)
    moreover have "self \<noteq> s" using cur a(3) by auto
    ultimately show ?thesis by (simp add: sto' s1)
  qed
next
  case (Call_get_state self)
  assume a: "obj_step sto c = (errs, sto')" "s < length sto" "sto ! s = EditorStateObj v"
  then show ?thesis using Call_get_state
    by (auto simp: obj_get_state_def obj_new_EditorState_def store_lookup_def nth_append
        split: if_splits pyobj.splits sum.splits)
next
  case (Call_restore_state self state)
  assume a: "obj_step sto c = (errs, sto')" "s < length sto" "sto ! s = EditorStateObj v"
  then show ?thesis using Call_restore_state
    by (auto simp: obj_restore_state_def store_lookup_def nth_list_update
        split: if_splits pyobj.splits sum.splits)
next
  case New_Editor
  assume a: "obj_step sto c = (errs, sto')" "s < length sto" "sto ! s = EditorStateObj v"
  then show ?thesis using New_Editor by (auto simp: obj_new_Editor_def nth_append)
next
  case (New_EditorState w)
  assume a: "obj_step sto c = (errs, sto')" "s < length sto" "sto ! s = EditorStateObj v"
  then show ?thesis using New_EditorState by (auto simp: obj_new_EditorState_def nth_append)
next
  case (New_list xs)
  assume a: "obj_step sto c = (errs, sto')" "s < length sto" "sto ! s = EditorStateObj v"
  then show ?thesis using New_list by (auto simp: obj_new_list_def nth_append)
qed

lemma obj_steps_keep_snapshot:
  "obj_steps sto cs = (errs, sto') \<Longrightarrow> s < length sto \<Longrightarrow> sto ! s = EditorStateObj v \<Longrightarrow>
   s < length sto' \<and> sto' ! s = EditorStateObj v"
proof (induction cs arbitrary: sto errs)
  case Nil
  then show ?case by simp
next
  case (Cons c cs)
  obtain e1 sto1 where st: "obj_step sto c = (e1, sto1)" by (cases "obj_step sto c")
  then obtain e2 where run: "obj_steps sto1 cs = (e2, sto')"
    using Cons.prems(1) by (auto split: prod.splits)
  from obj_step_keeps_snapshot [OF st Cons.prems(2,3)]
  have k: "s < length sto1" "sto1 ! s = EditorStateObj v" by simp_all
  from Cons.IH [OF run k] show ?case .
qed

lemma snapshot_value_kept:
  assumes ed: "store_lookup sto e = Some (EditorObj v)"
    and snap: "obj_get_state sto e = Inr (s, sto1)"
    and run: "obj_steps sto1 cs = (errs, sto2)"
  shows "obj_get_content sto1 (PyRef s) = Inr v \<and> obj_get_content sto2 (PyRef s) = Inr v"
proof -
  have s: "s = length sto" and sto1: "sto1 = sto @ [EditorStateObj v]"
    using ed snap by (simp_all add: obj_get_state_def obj_new_EditorState_def)
  have at1: "s < length sto1" "sto1 ! s = EditorStateObj v"
    by (simp_all add: s sto1)
  from obj_steps_keep_snapshot [OF run at1]
  have at2: "s < length sto2" "sto2 ! s = EditorStateObj v" by simp_all
  show ?thesis using at1 at2 by (simp add: store_lookup_def)
qed

lemma obj_view_immutable: "immutable v \<Longrightarrow> obj_view sto v = obj_view sto' v"
  by (cases v) simp_all

text \<open>
  Claim C7, as the code has it. \<open>get_state\<close> does not copy. When the editor's content
  is immutable (a string, as it is for every editor that is only given text, or
  \<open>None\<close>) at the time \<open>s = get_state()\<close> is taken, \<open>s.get_content()\<close> shows that content,
  and it still shows it after any sequence of \<open>add_text\<close>, \<open>get_state\<close> and
  \<open>restore_state\<close> calls on any editor with any arguments and the creation of any
  further objects, whether or not some of them raise.
\<close>

theorem C7_snapshot_unchanged:
  assumes ed: "store_lookup sto e = Some (EditorObj v)"
    and imm: "immutable v"
    and snap: "obj_get_state sto e = Inr (s, sto1)"
    and run: "obj_steps sto1 cs = (errs, sto2)"
  shows "snapshot_view sto1 s = Inr (obj_view sto v) \<and> snapshot_view sto2 s = Inr (obj_view sto v)"
  using snapshot_value_kept [OF ed snap run] obj_view_immutable [OF imm]
  by (simp add: snapshot_view_def)

theorem C7_snapshot_unchanged_witness:
  "store_lookup [EditorObj (PyStr ''Hello, '')] 0 = Some (EditorObj (PyStr ''Hello, '')) \<and>
   immutable (PyStr ''Hello, '') \<and>
   obj_get_state [EditorObj (PyStr ''Hello, '')] 0 =
     Inr (1, [EditorObj (PyStr ''Hello, ''), EditorStateObj (PyStr ''Hello, '')]) \<and>
   obj_steps [EditorObj (PyStr ''Hello, ''), EditorStateObj (PyStr ''Hello, '')]
     [Call_add_text 0 (PyStr ''world!''), Call_get_state 0, Call_restore_state 0 (PyRef 1),
      Call_restore_state 0 PyNone, Call_add_text 0 (PyStr ''again'')] =
     ([Raised AttributeError],
      [EditorObj (PyStr ''Hello, again''), EditorStateObj (PyStr ''Hello, ''),
       EditorStateObj (PyStr ''Hello, world!'')]) \<and>
   snapshot_view
     [EditorObj (PyStr ''Hello, again''), EditorStateObj (PyStr ''Hello, ''),
      EditorStateObj (PyStr ''Hello, world!'')] 1 = Inr (View_str ''Hello, '')"
proof -
  have a: "store_lookup [EditorObj (PyStr ''Hello, '')] 0 = Some (EditorObj (PyStr ''Hello, ''))"
    by (simp add: store_lookup_def)
  have i: "immutable (PyStr ''Hello, '')" by simp
  have b: "obj_get_state [EditorObj (PyStr ''Hello, '')] 0 =
      Inr (1, [EditorObj (PyStr ''Hello, ''), EditorStateObj (PyStr ''Hello, '')])"
    by (simp add: obj_get_state_def obj_new_EditorState_def store_lookup_def)
  have c: "obj_steps [EditorObj (PyStr ''Hello, ''), EditorStateObj (PyStr ''Hello, '')]
     [Call_add_text 0 (PyStr ''world!''), Call_get_state 0, Call_restore_state 0 (PyRef 1),
      Call_restore_state 0 PyNone, Call_add_text 0 (PyStr ''again'')] =
     ([Raised AttributeError],
      [EditorObj (PyStr ''Hello, again''), EditorStateObj (PyStr ''Hello, ''),
       EditorStateObj (PyStr ''Hello, world!'')])"
    by (simp add: obj_add_text_def obj_get_state_def obj_new_EditorState_def
        obj_restore_state_def store_lookup_def)
  from C7_snapshot_unchanged [OF a i b c] a i b c show ?thesis by simp
qed

text \<open>
  Against claim C7 as stated: an editor whose content is a list. The editor is given
  the list by \<open>restore_state(EditorState(['a', 'b']))\<close>; the snapshot \<open>s = get_state()\<close>
  then holds the same list object, and \<open>add_text(['c'])\<close> extends that object in place:
  \<open>s.get_content()\<close> showed \<open>['a', 'b']\<close> when it was taken and shows
  \<open>['a', 'b', 'c']\<close> afterwards.
\<close>

theorem C7_counterexample:
  "obj_steps []
     [New_Editor, New_list [PyStr ''a'', PyStr ''b''], New_EditorState (PyRef 1),
      Call_restore_state 0 (PyRef 2)] =
     ([], [EditorObj (PyRef 1), ListObj [PyStr ''a'', PyStr ''b''], EditorStateObj (PyRef 1)]) \<and>
   obj_get_state
     [EditorObj (PyRef 1), ListObj [PyStr ''a'', PyStr ''b''], EditorStateObj (PyRef 1)] 0 =
     Inr (3, [EditorObj (PyRef 1), ListObj [PyStr ''a'', PyStr ''b''], EditorStateObj (PyRef 1),
              EditorStateObj (PyRef 1)]) \<and>
   snapshot_view
     [EditorObj (PyRef 1), ListObj [PyStr ''a'', PyStr ''b''], EditorStateObj (PyRef 1),
      EditorStateObj (PyRef 1)] 3 = Inr (View_obj (ListObj [PyStr ''a'', PyStr ''b''])) \<and>
   obj_steps
     [EditorObj (PyRef 1), ListObj [PyStr ''a'', PyStr ''b''], EditorStateObj (PyRef 1),
      EditorStateObj (PyRef 1)]
     [New_list [PyStr ''c''], Call_add_text 0 (PyRef 4)] =
     ([], [EditorObj (PyRef 1), ListObj [PyStr ''a'', PyStr ''b'', PyStr ''c''],
           EditorStateObj (PyRef 1), EditorStateObj (PyRef 1), ListObj [PyStr ''c'']]) \<and>
   snapshot_view
     [EditorObj (PyRef 1), ListObj [PyStr ''a'', PyStr ''b'', PyStr ''c''],
      EditorStateObj (PyRef 1), EditorStateObj (PyRef 1), ListObj [PyStr ''c'']] 3 =
     Inr (View_obj (ListObj [PyStr ''a'', PyStr ''b'', PyStr ''c'']))"
  by (simp add: obj_new_Editor_def obj_new_list_def obj_new_EditorState_def
      obj_restore_state_def obj_get_state_def obj_add_text_def store_lookup_def
      snapshot_view_def)

text \<open>
  An editor that is only given text never gets there: in a store where every editor and
  every snapshot holds a string, every statement that does not build a snapshot by hand
  from something else keeps it so, and every content is then immutable.
\<close>

lemma text_only_step:
  "text_only sto \<Longrightarrow> text_statement c \<Longrightarrow> obj_step sto c = (errs, sto') \<Longrightarrow> text_only sto'"
proof (cases c)
  case (Call_add_text self words)
  assume a: "text_only sto" "text_statement c" "obj_step sto c = (errs, sto')"
  show ?thesis
  proof (cases "obj_add_text sto self words")
    case (Inl err)
    then show ?thesis using a Call_add_text by simp
  next
    case (Inr sto1)
    then have sto': "sto' = sto1" using a Call_add_text by simp
    from Inr obtain cur where cur: "self < length sto" "sto ! self = EditorObj cur"
      by (auto simp: obj_add_text_def store_lookup_def split: if_splits pyobj.splits)
    have "holds_text (sto ! self)" using a(1) cur(1) by (simp add: text_only_def list_all_length)
    then obtain x where x: "cur = PyStr x" using cur(2) by (cases cur) simp_all
    from Inr cur x obtain y where "words = PyStr y" "sto1 = sto[self := EditorObj (PyStr (x @ y))]"
      by (cases words) (auto simp: obj_add_text_def store_lookup_def)
    then show ?thesis using a(1) cur(1)
      by (auto simp: sto' text_only_def list_all_length nth_list_update)
  qed
next
  case (Call_get_state self)
  assume a: "text_only sto" "text_statement c" "obj_step sto c = (errs, sto')"
  then show ?thesis using Call_get_state
    by (auto simp: obj_get_state_def obj_new_EditorState_def store_lookup_def text_only_def
        list_all_length nth_append split: if_splits pyobj.splits sum.splits)
      (metis holds_text.simps(1))
next
  case (Call_restore_state self state)
  assume a: "text_only sto" "text_statement c" "obj_step sto c = (errs, sto')"
  show ?thesis
  proof (cases "obj_restore_state sto self state")
    case (Inl err)
    then show ?thesis using a Call_restore_state by simp
  next
    case (Inr sto1)
    then have sto': "sto' = sto1" using a Call_restore_state by simp
    from Inr obtain w where w: "obj_get_content sto state = Inr w" "sto1 = sto[self := EditorObj w]"
      and self: "self < length sto"
      by (auto simp: obj_restore_state_def store_lookup_def
          split: if_splits option.splits pyobj.splits sum.splits)
    from w(1) obtain r where r: "state = PyRef r" "r < length sto"
      "sto ! r = EditorObj w \<or> sto ! r = EditorStateObj w"
      by (cases state) (auto simp: store_lookup_def split: if_splits pyobj.splits)
    have "holds_text (sto ! r)" using a(1) r(2) by (simp add: text_only_def list_all_length)
    then have "is_str w" using r(3) by auto
    then show ?thesis using a(1) self
      by (auto simp: sto' w(2) text_only_def list_all_length nth_list_update)
  qed
next
  case New_Editor
  assume a: "text_only sto" "text_statement c" "obj_step sto c = (errs, sto')"
  then show ?thesis using New_Editor by (auto simp: obj_new_Editor_def text_only_def)
next
  case (New_EditorState w)
  assume a: "text_only sto" "text_statement c" "obj_step sto c = (errs, sto')"
  then show ?thesis using New_EditorState by (auto simp: obj_new_EditorState_def text_only_def)
next
  case (New_list xs)
  assume a: "text_only sto" "text_statement c" "obj_step sto c = (errs, sto')"
  then show ?thesis using New_list by (auto simp: obj_new_list_def text_only_def)
qed

lemma text_only_steps:
  "text_only sto \<Longrightarrow> list_all text_statement cs \<Longrightarrow> obj_steps sto cs = (errs, sto') \<Longrightarrow>
   text_only sto'"
proof (induction cs arbitrary: sto errs)
  case Nil
  then show ?case by simp
next
  case (Cons c cs)
  obtain e1 sto1 where st: "obj_step sto c = (e1, sto1)" by (cases "obj_step sto c")
  then obtain e2 where run: "obj_steps sto1 cs = (e2, sto')"
    using Cons.prems(3) by (auto split: prod.splits)
  have t1: "text_only sto1" using text_only_step [OF Cons.prems(1) _ st] Cons.prems(2) by simp
  from Cons.IH [OF t1 _ run] Cons.prems(2) show ?case by simp
qed

lemma text_only_immutable:
  "text_only sto \<Longrightarrow> store_lookup sto e = Some (EditorObj v) \<Longrightarrow> immutable v"
proof -
  assume t: "text_only sto" and e: "store_lookup sto e = Some (EditorObj v)"
  then have "e < length sto" "sto ! e = EditorObj v"
    by (simp_all add: store_lookup_def split: if_splits)
  then have "holds_text (EditorObj v)" using t by (auto simp: text_only_def list_all_length)
  then show ?thesis by (cases v) simp_all
qed

text \<open>
  The store agrees with the editor as a value: an editor object whose \<open>_content\<close> is
  the string content of \<open>ed\<close> answers every method as \<open>ed\<close> does.
\<close>

lemma store_add_text_refines:
  "store_lookup sto e = Some (EditorObj (PyStr (content ed))) \<Longrightarrow>
   \<exists>sto'. obj_add_text sto e (PyStr words) = Inr sto' \<and>
     store_lookup sto' e = Some (EditorObj (PyStr (content (add_text ed words))))"
  by (auto simp: obj_add_text_def store_lookup_def add_text_def split: if_splits)

lemma store_get_state_refines:
  "store_lookup sto e = Some (EditorObj (PyStr (content ed))) \<Longrightarrow>
   \<exists>s sto'. obj_get_state sto e = Inr (s, sto') \<and>
     obj_get_content sto' (PyRef s) = Inr (PyStr (state_get_content (get_state ed))) \<and>
     store_lookup sto' e = Some (EditorObj (PyStr (content ed)))"
  by (auto simp: obj_get_state_def obj_new_EditorState_def store_lookup_def get_state_def
      nth_append split: if_splits)

lemma store_restore_state_refines:
  "store_lookup sto e = Some (EditorObj (PyStr (content ed))) \<Longrightarrow>
   store_lookup sto s = Some (EditorStateObj (PyStr (state_get_content st))) \<Longrightarrow>
   \<exists>sto' ed'. obj_restore_state sto e (PyRef s) = Inr sto' \<and>
     restore_state ed (Some st) = Inr ed' \<and>
     store_lookup sto' e = Some (EditorObj (PyStr (content ed')))"
  by (auto simp: obj_restore_state_def store_lookup_def split: if_splits)

lemma store_restore_none_refines:
  "store_lookup sto e = Some (EditorObj (PyStr (content ed))) \<Longrightarrow>
   obj_restore_state sto e PyNone = Inl (Raised AttributeError) \<and>
   restore_state ed None = Inl AttributeError"
  by (auto simp: obj_restore_state_def)

end
